theory Spec2Isabelle
  imports Main
begin

section \<open>Python built-ins used by \<open>gds/burp/config.py\<close> and \<open>gds/burp/monitor.py\<close>\<close>

text \<open>
  The configuration engine is Python 2 code. The model below uses byte strings
  (\<^typ>\<open>string\<close>); \<open>to_unicode\<close> and \<open>_to_utf8\<close> only change the encoding of a text and
  are the identity here. Exceptions are values of \<open>exn\<close>, named after the Python classes.
\<close>

datatype exn = IOError | OSError | TypeError | ValueError | KeyError | AttributeError

subsection \<open>\<open>str.strip\<close>, \<open>str.lower\<close>, \<open>str.split\<close>\<close>

definition is_space :: "char \<Rightarrow> bool" where
  "is_space c = (c \<in> set [CHR '' '', CHR 0x09, CHR 0x0A, CHR 0x0B, CHR 0x0C, CHR 0x0D])"

definition strip :: "string \<Rightarrow> string" where
  "strip s = rev (dropWhile is_space (rev (dropWhile is_space s)))"



definition startswith :: "string \<Rightarrow> string \<Rightarrow> bool" where
  "startswith s p = (take (length p) s = p)"

text \<open>
  \<open>value.split(sep)\<close> for a separator string: the text is cut at each occurrence of
  \<open>sep\<close>, scanning from the left; an empty separator raises \<open>ValueError\<close>.
  \<open>split_from sep acc s\<close> is the scan, \<open>acc\<close> the current piece in reverse.
\<close>

function split_from :: "string \<Rightarrow> string \<Rightarrow> string \<Rightarrow> string list" where
  "split_from sep acc [] = [rev acc]"
| "split_from sep acc (c # cs) =
     (if sep \<noteq> [] \<and> startswith (c # cs) sep
      then rev acc # split_from sep [] (drop (length sep) (c # cs))
      else split_from sep (c # acc) cs)"
  by pat_completeness auto

termination
  by (relation "measure (\<lambda>(sep, acc, s). length s)") auto

definition split :: "string \<Rightarrow> string \<Rightarrow> exn + string list" where
  "split s sep = (if sep = [] then Inl ValueError else Inr (split_from sep [] s))"

subsection \<open>\<open>float(value)\<close> on a string\<close>










section \<open>Values\<close>

text \<open>
  \<open>pyval\<close> is what an option default of the registry, a raw value of the parser or a
  cached value can be: a string, a bool, an integer, a list of strings or \<open>None\<close>. A
  default handed in by a caller can also be any other object; the code only ever asks it
  for its truth value, so \<open>Opaque r\<close> stands for an object on which \<open>bool(...)\<close> gives
  \<open>r\<close>: a truth value, or an exception.
\<close>

datatype pyval = PStr string | PBool bool | PInt int | PList "string list" | PNone

datatype pyobj = Val pyval | Opaque "exn + bool"

fun truth :: "pyval \<Rightarrow> bool" where
  "truth (PStr s) = (s \<noteq> [])"
| "truth (PBool b) = b"
| "truth (PInt i) = (i \<noteq> 0)"
| "truth (PList xs) = (xs \<noteq> [])"
| "truth PNone = False"

fun py_bool :: "pyobj \<Rightarrow> exn + bool" where
  "py_bool (Val v) = Inr (truth v)"
| "py_bool (Opaque r) = r"


section \<open>The parsed file, paths and the file system\<close>

text \<open>
  \<open>ConfigParser\<close> is the standard library's; the model keeps what the engine uses of it:
  the parsed sections as a two-level dictionary from section name to option name to raw
  value (case-sensitive, since \<open>optionxform = str\<close>). \<open>parser_get\<close> is
  \<open>has_option\<close> and \<open>get\<close> in one: \<open>None\<close> where \<open>has_option\<close> is false. Value
  interpolation and the \<open>DEFAULT\<close> section of \<open>ConfigParser\<close> are not modelled.
\<close>

type_synonym options = "(string \<times> string) list"

type_synonym parsed = "(string \<times> options) list"

definition parser_get :: "parsed \<Rightarrow> string \<Rightarrow> string \<Rightarrow> string option" where
  "parser_get p section option =
     (case map_of p section of
        None \<Rightarrow> None
      | Some opts \<Rightarrow> map_of opts option)"

text \<open>\<open>d[k] = v\<close> on a dictionary kept as an association list with distinct keys.\<close>

fun dict_set :: "'k \<Rightarrow> 'v \<Rightarrow> ('k \<times> 'v) list \<Rightarrow> ('k \<times> 'v) list" where
  "dict_set k v [] = [(k, v)]"
| "dict_set k v ((k', v') # kvs) =
     (if k = k' then (k, v) # kvs else (k', v') # dict_set k v kvs)"

text \<open>\<open>os.path.isabs\<close>, \<open>os.path.dirname\<close> and \<open>os.path.join\<close> of \<open>posixpath\<close>.\<close>

definition isabs :: "string \<Rightarrow> bool" where
  "isabs s = startswith s ''/''"

definition dirname :: "string \<Rightarrow> string" where
  "dirname p =
     (let head = rev (dropWhile (\<lambda>c. c \<noteq> CHR ''/'') (rev p))
      in if head \<noteq> [] \<and> \<not> list_all (\<lambda>c. c = CHR ''/'') head
         then rev (dropWhile (\<lambda>c. c = CHR ''/'') (rev head))
         else head)"

definition join :: "string \<Rightarrow> string \<Rightarrow> string" where
  "join a b =
     (if startswith b ''/'' then b
      else if a = [] \<or> last a = CHR ''/'' then a @ b
      else a @ ''/'' @ b)"

text \<open>
  The file system as the engine sees it: a regular file has a modification time and either
  cannot be opened (\<open>Unreadable\<close>) or parses to its sections. \<open>parser_read\<close> is
  \<open>ConfigParser.read\<close> on an empty parser: the sections read, or \<open>None\<close> when the list of
  files read is empty (\<open>read\<close> swallows the \<open>IOError\<close> of \<open>open\<close>). Only the order of
  modification times matters, so they are integers.
\<close>

datatype content = Unreadable | Parsed parsed

record file_entry =
  st_mtime :: int
  content :: content

type_synonym filesystem = "string \<Rightarrow> file_entry option"

definition isfile :: "filesystem \<Rightarrow> string \<Rightarrow> bool" where
  "isfile fs p = (fs p \<noteq> None)"

definition getmtime :: "filesystem \<Rightarrow> string \<Rightarrow> exn + int" where
  "getmtime fs p = (case fs p of None \<Rightarrow> Inl OSError | Some f \<Rightarrow> Inr (st_mtime f))"

definition parser_read :: "filesystem \<Rightarrow> string \<Rightarrow> parsed option" where
  "parser_read fs p =
     (case fs p of
        None \<Rightarrow> None
      | Some f \<Rightarrow> (case content f of Unreadable \<Rightarrow> None | Parsed s \<Rightarrow> Some s))"

subsection \<open>The \<open>%\<close> operator on a format string\<close>

text \<open>
  \<open>fmt % args\<close> with the conversions \<open>%s\<close>, \<open>%(key)s\<close> and \<open>%%\<close>. A \<open>%(key)s\<close>
  needs a mapping on the right: with a tuple it raises \<open>TypeError\<close> (format requires a
  mapping). A tuple with too few or too many elements raises \<open>TypeError\<close> as well, a
  missing key \<open>KeyError\<close>, an unfinished or unknown
  conversion \<open>ValueError\<close>.
\<close>

datatype fmt_args = Tuple "string list" | Mapping "(string \<times> string) list"

definition prepend :: "string \<Rightarrow> exn + string \<Rightarrow> exn + string" where
  "prepend s r = (case r of Inl e \<Rightarrow> Inl e | Inr t \<Rightarrow> Inr (s @ t))"

function py_format :: "string \<Rightarrow> fmt_args \<Rightarrow> exn + string" where
  "py_format [] args = (case args of Tuple (a # as) \<Rightarrow> Inl TypeError | _ \<Rightarrow> Inr [])"
| "py_format (c # cs) args =
     (if c \<noteq> CHR ''%'' then prepend [c] (py_format cs args)
      else (case cs of
              [] \<Rightarrow> Inl ValueError
            | d # ds \<Rightarrow>
                if d = CHR ''%'' then prepend ''%'' (py_format ds args)
                else if d = CHR ''('' then
                  (case args of
                     Tuple as \<Rightarrow> Inl TypeError
                   | Mapping m \<Rightarrow>
                       (case dropWhile (\<lambda>x. x \<noteq> CHR '')'') ds of
                          close # conv # rest \<Rightarrow>
                            if conv = CHR ''s'' then
                              (case map_of m (takeWhile (\<lambda>x. x \<noteq> CHR '')'') ds) of
                                 None \<Rightarrow> Inl KeyError
                               | Some v \<Rightarrow> prepend v (py_format rest args))
                            else Inl ValueError
                        | _ \<Rightarrow> Inl ValueError))
                else if d = CHR ''s'' then
                  (case args of
                     Tuple [] \<Rightarrow> Inl TypeError
                   | Tuple (a # as) \<Rightarrow> prepend a (py_format ds (Tuple as))
                   | Mapping m \<Rightarrow> Inl ValueError)
                else Inl ValueError))"
  by pat_completeness auto

termination
  apply (relation "measure (\<lambda>(s, args). length s)")
  apply auto
  subgoal for ds args close rest
    using length_dropWhile_le [of "\<lambda>x. x \<noteq> CHR '')''" ds] by simp
  done

section \<open>The option registry\<close>

text \<open>
  \<open>Option.registry\<close> maps \<open>(section, name)\<close> to the declared \<open>Option\<close>; the engine reads
  only its \<open>default\<close>, so the registry is a map to that default. An \<open>Option\<close> object is
  always true, so \<open>option.default if option else _use_default\<close> is the default of a
  declared option.
\<close>

type_synonym registry = "string \<times> string \<Rightarrow> pyval option"

section \<open>\<open>Configuration\<close> and \<open>Section\<close>\<close>

text \<open>
  A \<open>Section\<close> proxy holds its \<open>overridden\<close> and \<open>_cache\<close> dictionaries; its \<open>name\<close> is
  the key under which the owning \<open>Configuration\<close> keeps it in \<open>_sections\<close>, and its
  \<open>config\<close> back-reference is that owner. A \<open>Configuration\<close> owns its parents (fresh
  instances made by \<open>parse_if_needed\<close>), so the state is a tree. \<open>conf_cache\<close> is the
  attribute \<open>_cache\<close> of the \<open>Configuration\<close> itself, absent (\<open>None\<close>) until
  \<open>parse_if_needed\<close> assigns it.
\<close>

record section_proxy =
  overridden :: "(string \<times> pyval) list"
  cache :: "(string \<times> pyval) list"

datatype configuration = Configuration
  (filename: string)
  (parser: parsed)
  (old_sections: parsed)
  (parents: "configuration list")
  (lastmtime: int)
  (sections: "(string \<times> section_proxy) list")
  (conf_cache: "(string \<times> pyval) list option")

text \<open>\<open>Configuration.__init__\<close>: the file is read once, silently empty when it cannot be.\<close>

definition Configuration_init :: "filesystem \<Rightarrow> string \<Rightarrow> configuration" where
  "Configuration_init fs fn =
     Configuration fn (case parser_read fs fn of None \<Rightarrow> [] | Some s \<Rightarrow> s) [] [] 0 [] None"

text \<open>\<open>Configuration.__getitem__\<close> on the \<open>_sections\<close> dictionary.\<close>

definition getitem :: "(string \<times> section_proxy) list \<Rightarrow> string \<Rightarrow> (string \<times> section_proxy) list" where
  "getitem secs name =
     (if map_of secs name = None then secs @ [(name, \<lparr>overridden = [], cache = []\<rparr>)] else secs)"

definition section_cache :: "(string \<times> section_proxy) list \<Rightarrow> string \<Rightarrow> (string \<times> pyval) list" where
  "section_cache secs name = (case map_of secs name of None \<Rightarrow> [] | Some s \<Rightarrow> cache s)"

definition cache_set ::
  "(string \<times> section_proxy) list \<Rightarrow> string \<Rightarrow> string \<Rightarrow> pyval \<Rightarrow> (string \<times> section_proxy) list" where
  "cache_set secs name key v =
     map (\<lambda>(n, s). if n = name then (n, s\<lparr>cache := dict_set key v (cache s)\<rparr>) else (n, s)) secs"

text \<open>The end of \<open>Section.get\<close>: an empty value becomes \<open>u''\<close>, a string stays as it is.\<close>

definition normalise :: "pyval \<Rightarrow> pyval" where
  "normalise v = (if \<not> truth v then PStr [] else v)"

text \<open>
  \<open>Section_lookup reg name key with_default cfg\<close> is \<open>cfg[name].get(key, default)\<close> up to
  its last \<open>return default\<close>: the result is \<open>None\<close> where the code goes on to return the
  caller's default, and the value returned otherwise. \<open>with_default\<close> says that
  \<open>default is not _use_default\<close>; the parents are asked with \<open>_use_default\<close>, so for
  them a result of \<open>None\<close> is the sentinel coming back. The state returned has the
  \<open>Section\<close> proxies that \<open>__getitem__\<close> made and the values cached on the way.
\<close>

fun Section_lookup ::
    "registry \<Rightarrow> string \<Rightarrow> string \<Rightarrow> bool \<Rightarrow> configuration \<Rightarrow> pyval option \<times> configuration"
  and parents_lookup ::
    "registry \<Rightarrow> string \<Rightarrow> string \<Rightarrow> configuration list \<Rightarrow> pyval option \<times> configuration list"
where
  "Section_lookup reg name key with_default (Configuration fn ps olds pars lm secs cc) =
     (let secs1 = getitem secs name in
      case map_of (section_cache secs1 name) key of
        Some cached \<Rightarrow> (Some cached, Configuration fn ps olds pars lm secs1 cc)
      | None \<Rightarrow>
          (case parser_get ps name key of
             Some raw \<Rightarrow>
               (Some (normalise (PStr raw)),
                Configuration fn ps olds pars lm (cache_set secs1 name key (normalise (PStr raw))) cc)
           | None \<Rightarrow>
               (case parents_lookup reg name key pars of
                  (Some v, pars1) \<Rightarrow>
                    (Some (normalise v),
                     Configuration fn ps olds pars1 lm (cache_set secs1 name key (normalise v)) cc)
                | (None, pars1) \<Rightarrow>
                    (case (if with_default then reg (name, key) else None) of
                       Some d \<Rightarrow>
                         (Some (normalise d),
                          Configuration fn ps olds pars1 lm (cache_set secs1 name key (normalise d)) cc)
                     | None \<Rightarrow> (None, Configuration fn ps olds pars1 lm secs1 cc)))))"
| "parents_lookup reg name key [] = (None, [])"
| "parents_lookup reg name key (p # ps) =
     (case Section_lookup reg name key False p of
        (Some v, p1) \<Rightarrow> (Some v, p1 # ps)
      | (None, p1) \<Rightarrow>
          (case parents_lookup reg name key ps of (r, ps1) \<Rightarrow> (r, p1 # ps1)))"

text \<open>
  \<open>Section.get(key, default)\<close> as a caller uses it, with a default of its own (\<open>''\<close> when
  omitted), and \<open>Configuration.get\<close>, which is \<open>self[section].get(key, default)\<close>.
\<close>

definition Section_get ::
  "registry \<Rightarrow> string \<Rightarrow> string \<Rightarrow> pyobj \<Rightarrow> configuration \<Rightarrow> pyobj \<times> configuration" where
  "Section_get reg name key dflt cfg =
     (case Section_lookup reg name key True cfg of
        (Some v, cfg1) \<Rightarrow> (Val v, cfg1)
      | (None, cfg1) \<Rightarrow> (dflt, cfg1))"

definition Configuration_get ::
  "registry \<Rightarrow> string \<Rightarrow> string \<Rightarrow> pyobj \<Rightarrow> configuration \<Rightarrow> pyobj \<times> configuration" where
  "Configuration_get reg section key dflt cfg = Section_get reg section key dflt cfg"


text \<open>
  \<open>getlist\<close>. An argument left out is \<open>None\<close>: \<open>arg d a\<close> is the parameter's value, \<open>d\<close>
  being the default of the signature. \<open>list(value)\<close> of a list default is the list; of a
  bool, an integer or an opaque object it raises \<open>TypeError\<close> (they are not iterable).
\<close>

definition arg :: "'a \<Rightarrow> 'a option \<Rightarrow> 'a" where
  "arg d a = (case a of None \<Rightarrow> d | Some x \<Rightarrow> x)"

fun items_of :: "pyobj \<Rightarrow> string \<Rightarrow> exn + string list" where
  "items_of (Val (PStr s)) sep =
     (case split s sep of Inl e \<Rightarrow> Inl e | Inr items \<Rightarrow> Inr (map strip items))"
| "items_of (Val (PList xs)) sep = Inr xs"
| "items_of v sep = Inl TypeError"

definition Section_getlist ::
  "registry \<Rightarrow> string \<Rightarrow> string \<Rightarrow> pyobj option \<Rightarrow> string option \<Rightarrow> bool option \<Rightarrow> configuration
     \<Rightarrow> (exn + string list) \<times> configuration" where
  "Section_getlist reg name key dflt sep keep_empty cfg =
     (case Section_get reg name key (arg (Val (PStr [])) dflt) cfg of
        (v, cfg1) \<Rightarrow>
          (case py_bool v of
             Inl e \<Rightarrow> (Inl e, cfg1)
           | Inr b \<Rightarrow>
               if \<not> b then (Inr [], cfg1)
               else (case items_of v (arg '','' sep) of
                       Inl e \<Rightarrow> (Inl e, cfg1)
                     | Inr items \<Rightarrow>
                         if \<not> arg True keep_empty
                         then (Inr (filter (\<lambda>i. i \<noteq> []) items), cfg1)
                         else (Inr items, cfg1))))"

definition Configuration_getlist ::
  "registry \<Rightarrow> string \<Rightarrow> string \<Rightarrow> pyobj option \<Rightarrow> string option \<Rightarrow> bool option \<Rightarrow> configuration
     \<Rightarrow> (exn + string list) \<times> configuration" where
  "Configuration_getlist reg section key dflt sep keep_empty cfg =
     Section_getlist reg section key
       (Some (arg (Val (PStr [])) dflt)) (Some (arg '','' sep)) (Some (arg False keep_empty)) cfg"

text \<open>
  \<open>Configuration.remove(section, key)\<close> is \<open>self[section].remove(key)\<close>. The attribute
  \<open>remove\<close> is looked up on the \<open>Section\<close> proxy: \<open>Section_attributes\<close> lists the slots
  and the names that the body of \<open>class Section\<close> binds (its only base is \<open>object\<close>, which
  has no \<open>remove\<close>), and a name that is not among them raises \<open>AttributeError\<close>. The
  proxy has been made by \<open>__getitem__\<close> by then. Were the method found it would be called;
  that branch is never taken.
\<close>

definition Section_attributes :: "string list" where
  "Section_attributes =
     [''config'', ''name'', ''overridden'', ''_cache'',
      ''__slots__'', ''__init__'', ''contains'', ''__contains__'', ''iterate'', ''__iter__'',
      ''__repr__'', ''get'', ''getbool'', ''getint'', ''getfloat'', ''getlist'', ''getpath'',
      ''options'']"

definition Section_getattr :: "string \<Rightarrow> exn + string" where
  "Section_getattr attr = (if attr \<in> set Section_attributes then Inr attr else Inl AttributeError)"

definition Configuration_remove ::
  "string \<Rightarrow> string \<Rightarrow> configuration \<Rightarrow> (exn + unit) \<times> configuration" where
  "Configuration_remove section key cfg =
     (case cfg of
        Configuration fn ps olds pars lm secs cc \<Rightarrow>
          (case Section_getattr ''remove'' of
             Inl e \<Rightarrow> (Inl e, Configuration fn ps olds pars lm (getitem secs section) cc)
           | Inr method \<Rightarrow> (Inr (), Configuration fn ps olds pars lm (getitem secs section) cc)))"

subsection \<open>\<open>Configuration.parse_if_needed\<close>\<close>

text \<open>
  The parents named by \<open>[inherit] file\<close>: the value is split at commas, each name is
  stripped and, unless absolute, joined to the directory of this file.
\<close>

definition inherit_files :: "string \<Rightarrow> parsed \<Rightarrow> string list" where
  "inherit_files fn p =
     (case parser_get p ''inherit'' ''file'' of
        None \<Rightarrow> []
      | Some v \<Rightarrow>
          map (\<lambda>f. if \<not> isabs (strip f) then join (dirname fn) (strip f) else strip f)
            (split_from '','' [] v))"

text \<open>
  \<open>parse_if_needed\<close> returns what the call returns or raises, and the object as the
  call leaves it (also when it raises: \<open>_sections\<close> and the parser's sections have been
  emptied by then). \<open>parse_parents\<close> is the loop \<open>changed |= parent.parse_if_needed(...)\<close>
  over the parents, \<open>changed\<close> being its accumulator. The file system does not change
  during one call.
\<close>

fun parse_if_needed ::
    "filesystem \<Rightarrow> bool \<Rightarrow> configuration \<Rightarrow> (exn + bool) \<times> configuration"
  and parse_parents ::
    "filesystem \<Rightarrow> bool \<Rightarrow> bool \<Rightarrow> configuration list \<Rightarrow> (exn + bool) \<times> configuration list"
where
  "parse_if_needed fs force (Configuration fn ps olds pars lm secs cc) =
     (if fn = [] \<or> \<not> isfile fs fn then (Inr False, Configuration fn ps olds pars lm secs cc)
      else
        (case getmtime fs fn of
           Inl e \<Rightarrow> (Inl e, Configuration fn ps olds pars lm secs cc)
         | Inr modtime \<Rightarrow>
             if force \<or> modtime > lm then
               (case parser_read fs fn of
                  None \<Rightarrow>
                    (case py_format ''Error reading '%(file)s', make sure it is readable.''
                            (Tuple [fn]) of
                       Inl e \<Rightarrow> (Inl e, Configuration fn [] olds pars lm [] cc)
                     | Inr msg \<Rightarrow> (Inl IOError, Configuration fn [] olds pars lm [] cc))
                | Some s \<Rightarrow>
                    (Inr True,
                     Configuration fn s s (map (Configuration_init fs) (inherit_files fn s))
                       modtime [] (Some [])))
             else
               (case parse_parents fs force False pars of
                  (Inl e, pars1) \<Rightarrow> (Inl e, Configuration fn ps olds pars1 lm secs cc)
                | (Inr changed, pars1) \<Rightarrow>
                    (Inr changed,
                     Configuration fn ps olds pars1 lm secs (if changed then Some [] else cc)))))"
| "parse_parents fs force changed [] = (Inr changed, [])"
| "parse_parents fs force changed (p # ps) =
     (case parse_if_needed fs force p of
        (Inl e, p1) \<Rightarrow> (Inl e, p1 # ps)
      | (Inr b, p1) \<Rightarrow>
          (case parse_parents fs force (changed \<or> b) ps of (r, ps1) \<Rightarrow> (r, p1 # ps1)))"

section \<open>\<open>PluginMonitorThread\<close>\<close>

text \<open>
  A plugin is the dictionary with the keys \<open>module\<close>, \<open>class\<close> and \<open>instance\<close>; the
  instance is a weak reference, dead (\<open>Gone\<close>) or to an \<open>IMenuItemHandler\<close>, a
  \<open>Configuration\<close>, a \<open>Component\<close> or anything else. What happens outside the engine
  when a handler is reloaded is given by the world: \<open>reimport m c\<close> is the exception, if
  any, of finding module \<open>m\<close> in \<open>sys.modules\<close>, reloading it and reading its class
  \<open>c\<close>, and \<open>patch c\<close> the exception, if any, of \<open>patch_menu_item\<close>. The log is the
  list of the records written. Every \<open>exn\<close> is a subclass of \<open>Exception\<close>.
\<close>

datatype referent =
    Gone
  | MenuItemHandler
  | ConfigurationObject configuration
  | ComponentObject
  | OtherObject

record plugin =
  plugin_module :: string
  plugin_class :: string
  plugin_instance :: referent

record world =
  files :: filesystem
  reimport :: "string \<Rightarrow> string \<Rightarrow> exn option"
  patch :: "string \<Rightarrow> exn option"

datatype event =
    Info_modified string
  | Debug_reloading string
  | Warn_gone string string
  | Debug_patching string
  | Debug_configuration string
  | Exception_reloading string exn

record monitor_state =
  mtimes :: "(string \<times> int) list"
  monitoring :: "(string \<times> plugin list) list"
  log :: "event list"

text \<open>
  \<open>__has_changed\<close>: the result or the \<open>OSError\<close> of \<open>getmtime\<close>, and \<open>mtimes\<close> after it.
  \<open>recorded mt fn\<close> is \<open>self.mtimes.get(filename, -1)\<close>.
\<close>

definition recorded :: "(string \<times> int) list \<Rightarrow> string \<Rightarrow> int" where
  "recorded mt fn = (case map_of mt fn of None \<Rightarrow> - 1 | Some t \<Rightarrow> t)"

definition has_changed ::
  "world \<Rightarrow> string \<Rightarrow> (string \<times> int) list \<Rightarrow> (exn + bool) \<times> (string \<times> int) list" where
  "has_changed w fn mt =
     (case getmtime (files w) fn of
        Inl e \<Rightarrow> (Inl e, mt)
      | Inr lastModified \<Rightarrow>
          if lastModified > recorded mt fn
          then (Inr True, dict_set fn lastModified mt)
          else (Inr False, mt))"

text \<open>\<open>__reload\<close>: the exception raised, if any, the plugin afterwards and the records logged.\<close>

definition reload :: "world \<Rightarrow> plugin \<Rightarrow> exn option \<times> plugin \<times> event list" where
  "reload w p =
     (case plugin_instance p of
        Gone \<Rightarrow> (None, p, [Warn_gone (plugin_module p) (plugin_class p)])
      | MenuItemHandler \<Rightarrow>
          (case reimport w (plugin_module p) (plugin_class p) of
             Some e \<Rightarrow> (Some e, p, [])
           | None \<Rightarrow> (patch w (plugin_class p), p, [Debug_patching (plugin_class p)]))
      | ConfigurationObject c \<Rightarrow>
          (case parse_if_needed (files w) True c of
             (Inl e, c1) \<Rightarrow>
               (Some e, p\<lparr>plugin_instance := ConfigurationObject c1\<rparr>,
                [Debug_configuration (filename c)])
           | (Inr b, c1) \<Rightarrow>
               (None, p\<lparr>plugin_instance := ConfigurationObject c1\<rparr>,
                [Debug_configuration (filename c)]))
      | ComponentObject \<Rightarrow> (None, p, [])
      | OtherObject \<Rightarrow> (None, p, []))"

text \<open>The loop \<open>for plugin in plugins\<close> of \<open>__monitor\<close>; it stops at the first exception.\<close>

fun reload_all :: "world \<Rightarrow> plugin list \<Rightarrow> exn option \<times> plugin list \<times> event list" where
  "reload_all w [] = (None, [], [])"
| "reload_all w (p # ps) =
     (case reload w p of
        (Some e, p1, ev) \<Rightarrow> (Some e, p1 # ps, Debug_reloading (plugin_class p) # ev)
      | (None, p1, ev) \<Rightarrow>
          (case reload_all w ps of
             (r, ps1, ev1) \<Rightarrow> (r, p1 # ps1, Debug_reloading (plugin_class p) # ev @ ev1)))"

definition monitor ::
  "world \<Rightarrow> string \<Rightarrow> plugin list \<Rightarrow> (string \<times> int) list
     \<Rightarrow> exn option \<times> plugin list \<times> (string \<times> int) list \<times> event list" where
  "monitor w fn plugins mt =
     (case has_changed w fn mt of
        (Inl e, mt1) \<Rightarrow> (Some e, plugins, mt1, [])
      | (Inr changed, mt1) \<Rightarrow>
          if changed then
            (case reload_all w plugins of
               (r, plugins1, ev) \<Rightarrow> (r, plugins1, mt1, Info_modified fn # ev))
          else (None, plugins, mt1, []))"

text \<open>
  The loop \<open>for filename, plugins in self.burp.monitoring.iteritems()\<close> inside the \<open>try\<close>
  of \<open>run\<close>: the dictionary is the list of its items in iteration order. An exception
  leaves the loop, with the file name it was raised for.
\<close>

fun monitor_all ::
  "world \<Rightarrow> (string \<times> plugin list) list \<Rightarrow> (string \<times> int) list
     \<Rightarrow> (string \<times> exn) option \<times> (string \<times> plugin list) list \<times> (string \<times> int) list \<times> event list"
where
  "monitor_all w [] mt = (None, [], mt, [])"
| "monitor_all w ((fn, plugins) # rest) mt =
     (case monitor w fn plugins mt of
        (Some e, plugins1, mt1, ev) \<Rightarrow> (Some (fn, e), (fn, plugins1) # rest, mt1, ev)
      | (None, plugins1, mt1, ev) \<Rightarrow>
          (case monitor_all w rest mt1 of
             (r, rest1, mt2, ev1) \<Rightarrow> (r, (fn, plugins1) # rest1, mt2, ev @ ev1)))"

text \<open>
  One turn of \<open>while True\<close> in \<open>run\<close>: the \<open>try\<close> around the whole loop over the files,
  and its \<open>except Exception\<close>, which logs the file name. \<open>run\<close> itself never returns;
  \<open>run_ticks\<close> is its first turns, one for each world in the list (the files as they are
  when the thread wakes up).
\<close>

definition tick :: "world \<Rightarrow> monitor_state \<Rightarrow> monitor_state" where
  "tick w st =
     (case monitor_all w (monitoring st) (mtimes st) of
        (None, mon, mt, ev) \<Rightarrow> \<lparr>mtimes = mt, monitoring = mon, log = log st @ ev\<rparr>
      | (Some (fn, e), mon, mt, ev) \<Rightarrow>
          \<lparr>mtimes = mt, monitoring = mon, log = log st @ ev @ [Exception_reloading fn e]\<rparr>)"

fun run_ticks :: "world list \<Rightarrow> monitor_state \<Rightarrow> monitor_state" where
  "run_ticks [] st = st"
| "run_ticks (w # ws) st = run_ticks ws (tick w st)"

section \<open>What the specification says, as functions\<close>


text \<open>
  Precedence: the value explicit in the file's own parsed section, else the one of the
  first parent that has one, each parent searched in depth before the next
  (\<open>explicit_value\<close>); else the registry default, normalised as every resolved value is;
  else the caller's default (\<open>resolve\<close>).
\<close>

fun explicit_value :: "string \<Rightarrow> string \<Rightarrow> configuration \<Rightarrow> string option"
  and first_explicit :: "string \<Rightarrow> string \<Rightarrow> configuration list \<Rightarrow> string option"
where
  "explicit_value name key (Configuration fn ps olds pars lm secs cc) =
     (case parser_get ps name key of
        Some raw \<Rightarrow> Some raw
      | None \<Rightarrow> first_explicit name key pars)"
| "first_explicit name key [] = None"
| "first_explicit name key (p # ps) =
     (case explicit_value name key p of
        Some raw \<Rightarrow> Some raw
      | None \<Rightarrow> first_explicit name key ps)"

definition resolve :: "registry \<Rightarrow> string \<Rightarrow> string \<Rightarrow> pyobj \<Rightarrow> configuration \<Rightarrow> pyobj" where
  "resolve reg name key dflt cfg =
     (case explicit_value name key cfg of
        Some raw \<Rightarrow> Val (PStr raw)
      | None \<Rightarrow> (case reg (name, key) of Some d \<Rightarrow> Val (normalise d) | None \<Rightarrow> dflt))"

text \<open>
  Cache coherency. \<open>expected reg wr name key cfg\<close> is the value that a lookup in \<open>cfg\<close>
  has to find, \<open>None\<close> where it is the turn of the caller's default; \<open>wr\<close> says whether
  the registry is consulted, which it is for the object the caller asks and not for its
  parents. \<open>coherent reg wr cfg\<close>: every value cached by a \<open>Section\<close> proxy, of \<open>cfg\<close> or
  of a parent below it, is the value expected for its key.
\<close>

definition expected :: "registry \<Rightarrow> bool \<Rightarrow> string \<Rightarrow> string \<Rightarrow> configuration \<Rightarrow> pyval option" where
  "expected reg wr name key cfg =
     (case explicit_value name key cfg of
        Some raw \<Rightarrow> Some (PStr raw)
      | None \<Rightarrow> if wr then map_option normalise (reg (name, key)) else None)"

definition caches_ok :: "registry \<Rightarrow> bool \<Rightarrow> configuration \<Rightarrow> bool" where
  "caches_ok reg wr cfg =
     list_all (\<lambda>(name, s). list_all (\<lambda>(key, v). expected reg wr name key cfg = Some v) (cache s))
       (sections cfg)"

fun coherent :: "registry \<Rightarrow> bool \<Rightarrow> configuration \<Rightarrow> bool" where
  "coherent reg wr (Configuration fn ps olds pars lm secs cc) =
     (caches_ok reg wr (Configuration fn ps olds pars lm secs cc) \<and>
      list_all (coherent reg False) pars)"


section \<open>An example installation\<close>

text \<open>
  A child file that inherits from \<open>parent.ini\<close> beside it, both last written at time 5,
  and a registry with two declared options. \<open>ex_child\<close> is the child's
  \<open>Configuration\<close> after its first \<open>parse_if_needed\<close>.
\<close>

definition ex_files :: filesystem where
  "ex_files = map_of
     [(''/etc/burp/child.ini'',
       \<lparr>st_mtime = 5,
        content = Parsed
          [(''inherit'', [(''file'', ''parent.ini'')]),
           (''x'', [(''a'', ''1''), (''flag'', ''Yes''), (''empty'', ''''), (''l'', ''a, b,,c'')])]\<rparr>),
      (''/etc/burp/parent.ini'',
       \<lparr>st_mtime = 5,
        content = Parsed [(''x'', [(''a'', ''2''), (''empty'', ''full''), (''p'', ''q'')])]\<rparr>)]"

definition ex_registry :: registry where
  "ex_registry = map_of [((''x'', ''a''), PStr ''3''), ((''x'', ''r''), PInt 0)]"

definition ex_child :: configuration where
  "ex_child =
     snd (parse_if_needed ex_files False (Configuration_init ex_files ''/etc/burp/child.ini''))"

text \<open>
  \<open>ex_loaded\<close> is the child after a second call, which has parsed the parent as well,
  and \<open>ex_read\<close> the child after \<open>get\<close> has then read \<open>p\<close>, a key that only the parent
  sets. In \<open>ex_files_later\<close> the parent has been rewritten at time 9 with another value
  for \<open>p\<close>; \<open>ex_reparsed\<close> is the child after \<open>parse_if_needed\<close> on those files.
\<close>

definition ex_loaded :: configuration where
  "ex_loaded = snd (parse_if_needed ex_files False ex_child)"

definition ex_read :: configuration where
  "ex_read = snd (Configuration_get ex_registry ''x'' ''p'' (Val (PStr [])) ex_loaded)"

definition ex_files_later :: filesystem where
  "ex_files_later = map_of
     [(''/etc/burp/child.ini'',
       \<lparr>st_mtime = 5,
        content = Parsed
          [(''inherit'', [(''file'', ''parent.ini'')]),
           (''x'', [(''a'', ''1''), (''flag'', ''Yes''), (''empty'', ''''), (''l'', ''a, b,,c'')])]\<rparr>),
      (''/etc/burp/parent.ini'',
       \<lparr>st_mtime = 9,
        content = Parsed [(''x'', [(''a'', ''2''), (''empty'', ''full''), (''p'', ''changed'')])]\<rparr>)]"

definition ex_reparsed :: configuration where
  "ex_reparsed = snd (parse_if_needed ex_files_later False ex_read)"

text \<open>A file that exists and cannot be opened.\<close>

definition ex_locked :: filesystem where
  "ex_locked = map_of [(''/etc/burp/locked.ini'', \<lparr>st_mtime = 5, content = Unreadable\<rparr>)]"

text \<open>
  Two watched files, both written at time 5 and recorded at time 1. The dependent of
  \<open>locked.ini\<close> is a \<open>Configuration\<close> of that file, which cannot be read, so reloading it
  raises; \<open>handler.py\<close> comes after it in the iteration and has a menu handler (its
  content is never read as a configuration).
\<close>

definition ex_world :: world where
  "ex_world =
     \<lparr>files = map_of
        [(''/etc/burp/locked.ini'', \<lparr>st_mtime = 5, content = Unreadable\<rparr>),
         (''/plugins/handler.py'', \<lparr>st_mtime = 5, content = Unreadable\<rparr>)],
      reimport = (\<lambda>m c. None),
      patch = (\<lambda>c. None)\<rparr>"

definition ex_monitor :: monitor_state where
  "ex_monitor =
     \<lparr>mtimes = [(''/etc/burp/locked.ini'', 1), (''/plugins/handler.py'', 1)],
      monitoring =
        [(''/etc/burp/locked.ini'',
          [\<lparr>plugin_module = ''gds.burp.config'', plugin_class = ''Configuration'',
            plugin_instance =
              ConfigurationObject (Configuration ''/etc/burp/locked.ini'' [] [] [] 0 [] None)\<rparr>]),
         (''/plugins/handler.py'',
          [\<lparr>plugin_module = ''handler'', plugin_class = ''ConsoleMenu'',
            plugin_instance = MenuItemHandler\<rparr>])],
      log = []\<rparr>"

section \<open>Boolean coercion\<close>











section \<open>Precedence of resolution\<close>

lemma section_cache_getitem [simp]:
  "section_cache (getitem secs name) name = section_cache secs name"
  by (simp add: section_cache_def getitem_def map_add_def)

lemma normalise_PStr [simp]: "normalise (PStr s) = PStr s"
  by (simp add: normalise_def)

text \<open>A lookup leaves the parsed data alone, so the explicit values stay what they were.\<close>

lemma lookup_explicit:
  "explicit_value n k (snd (Section_lookup reg name key wd cfg)) = explicit_value n k cfg"
  "first_explicit n k (snd (parents_lookup reg name key ps)) = first_explicit n k ps"
proof (induction reg name key wd cfg and reg name key ps
    rule: Section_lookup_parents_lookup.induct)
  case (1 reg name key with_default fn ps olds pars lm secs cc)
  then show ?case
    by (cases "parents_lookup reg name key pars")
      (auto simp: Let_def split: option.splits)
next
  case (2 reg name key)
  then show ?case by simp
next
  case (3 reg name key p ps)
  then show ?case
    by (cases "Section_lookup reg name key False p"; cases "parents_lookup reg name key ps")
      (auto split: option.splits)
qed

lemma expected_parents:
  assumes "first_explicit name key pars1 = first_explicit name key pars"
  shows "expected reg wr name key (Configuration fn ps olds pars1 lm secs1 cc1) =
         expected reg wr name key (Configuration fn ps olds pars lm secs cc)"
  using assms by (auto simp: expected_def split: option.splits)

lemma cached_expected:
  assumes "caches_ok reg wr (Configuration fn ps olds pars lm secs cc)"
    "map_of (section_cache secs name) key = Some v"
  shows "expected reg wr name key (Configuration fn ps olds pars lm secs cc) = Some v"
proof -
  from assms(2) obtain s where s: "map_of secs name = Some s" "map_of (cache s) key = Some v"
    by (auto simp: section_cache_def split: option.splits)
  then have "(name, s) \<in> set secs" "(key, v) \<in> set (cache s)"
    by (auto dest: map_of_SomeD)
  with assms(1) show ?thesis
    by (auto simp: caches_ok_def list_all_iff)
qed

lemma set_dict_set: "set (dict_set k v d) \<subseteq> insert (k, v) (set d)"
  by (induction d) (auto split: if_splits)

lemma caches_ok_getitem:
  assumes "caches_ok reg wr (Configuration fn ps olds pars lm secs cc)"
    "\<And>n k. first_explicit n k pars1 = first_explicit n k pars"
  shows "caches_ok reg wr (Configuration fn ps olds pars1 lm (getitem secs name) cc)"
proof -
  have e: "expected reg wr n k (Configuration fn ps olds pars1 lm (getitem secs name) cc) =
      expected reg wr n k (Configuration fn ps olds pars lm secs cc)" for n k
    using assms(2) [of n k] by (rule expected_parents)
  show ?thesis
    using assms(1) unfolding caches_ok_def list_all_iff e
    by (auto simp: getitem_def)
qed

lemma expected_sections:
  "expected reg wr n k (Configuration fn ps olds pars lm secs1 cc1) =
   expected reg wr n k (Configuration fn ps olds pars lm secs cc)"
  by (simp add: expected_def)

lemma caches_ok_cache_set:
  assumes "caches_ok reg wr (Configuration fn ps olds pars lm secs cc)"
    "expected reg wr name key (Configuration fn ps olds pars lm secs cc) = Some v"
  shows "caches_ok reg wr (Configuration fn ps olds pars lm (cache_set secs name key v) cc)"
proof -
  let ?new = "Configuration fn ps olds pars lm (cache_set secs name key v) cc"
  have "expected reg wr n k ?new = Some u"
    if "(n, s) \<in> set (cache_set secs name key v)" "(k, u) \<in> set (cache s)" for n s k u
  proof -
    from that(1) obtain s0 where s0: "(n, s0) \<in> set secs"
      "s = (if n = name then s0\<lparr>cache := dict_set key v (cache s0)\<rparr> else s0)"
      by (auto simp: cache_set_def split: if_splits)
    have "expected reg wr n k (Configuration fn ps olds pars lm secs cc) = Some u"
    proof (cases "n = name \<and> (k, u) = (key, v)")
      case True
      with assms(2) show ?thesis by simp
    next
      case False
      with s0 that(2) set_dict_set [of key v "cache s0"] have "(k, u) \<in> set (cache s0)"
        by (auto split: if_splits)
      with s0(1) assms(1) show ?thesis
        by (auto simp: caches_ok_def list_all_iff)
    qed
    then show ?thesis
      by (simp add: expected_sections [of reg wr n k fn ps olds pars lm "cache_set secs name key v" cc secs cc])
  qed
  then show ?thesis
    by (fastforce simp: caches_ok_def list_all_iff)
qed


lemma coherent_parts:
  "coherent reg wr (Configuration fn ps olds pars lm secs cc) \<longleftrightarrow>
     caches_ok reg wr (Configuration fn ps olds pars lm secs cc) \<and>
     list_all (coherent reg False) pars"
  by simp

text \<open>
  A lookup in a coherent tree finds the expected value, on a hit as on a miss, and what it
  caches keeps the tree coherent.
\<close>

lemma lookup_coherent:
  "coherent reg wd cfg \<Longrightarrow>
     fst (Section_lookup reg name key wd cfg) = expected reg wd name key cfg \<and>
     coherent reg wd (snd (Section_lookup reg name key wd cfg))"
  "list_all (coherent reg False) ps \<Longrightarrow>
     fst (parents_lookup reg name key ps) = map_option PStr (first_explicit name key ps) \<and>
     list_all (coherent reg False) (snd (parents_lookup reg name key ps))"
proof (induction reg name key wd cfg and reg name key ps
    rule: Section_lookup_parents_lookup.induct)
  case (1 reg name key wd fn ps olds pars lm secs cc)
  let ?cfg = "Configuration fn ps olds pars lm secs cc"
  let ?secs1 = "getitem secs name"
  from "1.prems" have ok: "caches_ok reg wd ?cfg" and cp: "list_all (coherent reg False) pars"
    by simp_all
  show ?case
  proof (cases "map_of (section_cache secs name) key")
    case (Some v)
    have "expected reg wd name key ?cfg = Some v"
      using ok Some by (rule cached_expected)
    moreover have "caches_ok reg wd (Configuration fn ps olds pars lm ?secs1 cc)"
      using ok by (rule caches_ok_getitem) simp
    ultimately show ?thesis
      using Some cp by (simp add: Let_def del: coherent.simps add: coherent_parts)
  next
    case None
    show ?thesis
    proof (cases "parser_get ps name key")
      case (Some raw)
      have ok1: "caches_ok reg wd (Configuration fn ps olds pars lm ?secs1 cc)"
        using ok by (rule caches_ok_getitem) simp
      have e: "expected reg wd name key (Configuration fn ps olds pars lm ?secs1 cc) =
          Some (PStr raw)"
        using Some by (simp add: expected_def)
      have "caches_ok reg wd
          (Configuration fn ps olds pars lm (cache_set ?secs1 name key (PStr raw)) cc)"
        using ok1 e by (rule caches_ok_cache_set)
      moreover have "expected reg wd name key ?cfg = Some (PStr raw)"
        using Some by (simp add: expected_def)
      ultimately show ?thesis
        using None Some cp by (simp add: Let_def del: coherent.simps add: coherent_parts)
    next
      case pn: None
      obtain r pars1 where pl: "parents_lookup reg name key pars = (r, pars1)"
        by (cases "parents_lookup reg name key pars")
      have None1: "map_of (section_cache (getitem secs name) name) key = None"
        using None by simp
      have ih: "r = map_option PStr (first_explicit name key pars)"
        "list_all (coherent reg False) pars1"
        using "1.IH" [OF refl None1 pn cp] pl by simp_all
      have same: "first_explicit n k pars1 = first_explicit n k pars" for n k
        using lookup_explicit(2) [of n k reg name key pars] pl by simp
      let ?B = "Configuration fn ps olds pars1 lm ?secs1 cc"
      have okB: "caches_ok reg wd ?B"
        using ok same by (rule caches_ok_getitem)
      have eB: "expected reg wd name key ?B = expected reg wd name key ?cfg"
        using same by (rule expected_parents)
      have ex: "explicit_value name key ?cfg = first_explicit name key pars"
        using pn by simp
      show ?thesis
      proof (cases r)
        case (Some v)
        with ih(1) obtain raw where raw: "first_explicit name key pars = Some raw" "v = PStr raw"
          by (cases "first_explicit name key pars") auto
        have e: "expected reg wd name key ?cfg = Some v"
          using ex raw by (simp add: expected_def)
        have "caches_ok reg wd (Configuration fn ps olds pars1 lm (cache_set ?secs1 name key v) cc)"
          using okB eB e by (intro caches_ok_cache_set) simp_all
        with e raw(2) Some pl None pn ih(2) show ?thesis
          by (simp add: Let_def del: coherent.simps add: coherent_parts)
      next
        case rn: None
        with ih(1) have fe: "first_explicit name key pars = None"
          by (cases "first_explicit name key pars") auto
        show ?thesis
        proof (cases "if wd then reg (name, key) else None")
          case (Some d)
          then have e: "expected reg wd name key ?cfg = Some (normalise d)"
            using ex fe by (auto simp: expected_def split: if_splits)
          have "caches_ok reg wd
              (Configuration fn ps olds pars1 lm (cache_set ?secs1 name key (normalise d)) cc)"
            using okB eB e by (intro caches_ok_cache_set) simp_all
          with e Some rn pl None pn ih(2) show ?thesis
            by (simp add: Let_def del: coherent.simps add: coherent_parts)
        next
          case dn: None
          then have e: "expected reg wd name key ?cfg = None"
            using ex fe by (auto simp: expected_def split: if_splits)
          with dn rn pl None pn ih(2) okB show ?thesis
            by (simp add: Let_def del: coherent.simps add: coherent_parts)
        qed
      qed
    qed
  qed
next
  case (2 reg name key)
  then show ?case by simp
next
  case (3 reg name key p ps)
  from "3.prems" have cp: "coherent reg False p" and cps: "list_all (coherent reg False) ps"
    by simp_all
  obtain r p1 where sl: "Section_lookup reg name key False p = (r, p1)"
    by (cases "Section_lookup reg name key False p")
  have ih1: "r = expected reg False name key p" "coherent reg False p1"
    using "3.IH"(1) [OF cp] sl by simp_all
  have ep: "expected reg False name key p = map_option PStr (explicit_value name key p)"
    by (simp add: expected_def split: option.splits)
  show ?case
  proof (cases r)
    case (Some v)
    with ih1 ep sl cps show ?thesis
      by (cases "explicit_value name key p") auto
  next
    case None
    obtain r2 ps1 where pl: "parents_lookup reg name key ps = (r2, ps1)"
      by (cases "parents_lookup reg name key ps")
    have ih2: "r2 = map_option PStr (first_explicit name key ps)"
      "list_all (coherent reg False) ps1"
      using "3.IH"(2) [OF _ _ cps] sl None pl by simp_all
    from None ih1 ep have "explicit_value name key p = None"
      by (cases "explicit_value name key p") auto
    with ih1 ih2 sl None pl show ?thesis by simp
  qed
qed

lemma get_coherent:
  assumes "coherent reg True cfg"
  shows "fst (Section_get reg name key dflt cfg) = resolve reg name key dflt cfg"
    and "coherent reg True (snd (Section_get reg name key dflt cfg))"
  using lookup_coherent(1) [OF assms, of name key]
  by (auto simp: Section_get_def resolve_def expected_def split: option.splits prod.splits)

lemma coherent_Configuration_init: "coherent reg wr (Configuration_init fs fn)"
  by (simp add: Configuration_init_def caches_ok_def)



section \<open>Lists\<close>

lemma getlist_of_empty:
  assumes "fst (Section_get reg name key (arg (Val (PStr [])) dflt) cfg) = Val (PStr [])"
  shows "fst (Section_getlist reg name key dflt sep keep_empty cfg) = Inr []"
  using assms
  by (cases "Section_get reg name key (arg (Val (PStr [])) dflt) cfg")
    (simp add: Section_getlist_def)

text \<open>
  Claim C9. When the value that \<open>get\<close> resolves to is the empty string, \<open>getlist\<close>
  returns the empty list, whatever the separator and \<open>keep_empty\<close> are (also for a
  separator that \<open>split\<close> would refuse). This covers an explicit empty value and a key
  found nowhere with an empty default from the caller.
\<close>

theorem getlist_empty_value:
  "(fst (Section_get reg name key (arg (Val (PStr [])) dflt) cfg) = Val (PStr []) \<longrightarrow>
      fst (Section_getlist reg name key dflt sep keep_empty cfg) = Inr []) \<and>
   (coherent reg True cfg \<and> explicit_value name key cfg = Some [] \<longrightarrow>
      fst (Section_getlist reg name key dflt sep keep_empty cfg) = Inr []) \<and>
   (coherent reg True cfg \<and> explicit_value name key cfg = None \<and> reg (name, key) = None \<and>
    arg (Val (PStr [])) dflt = Val (PStr []) \<longrightarrow>
      fst (Section_getlist reg name key dflt sep keep_empty cfg) = Inr [])"
proof (intro conjI impI)
  assume "fst (Section_get reg name key (arg (Val (PStr [])) dflt) cfg) = Val (PStr [])"
  then show "fst (Section_getlist reg name key dflt sep keep_empty cfg) = Inr []"
    by (rule getlist_of_empty)
next
  assume a: "coherent reg True cfg \<and> explicit_value name key cfg = Some []"
  then have "fst (Section_get reg name key (arg (Val (PStr [])) dflt) cfg) = Val (PStr [])"
    using get_coherent(1) [of reg cfg name key "arg (Val (PStr [])) dflt"]
    by (simp add: resolve_def)
  then show "fst (Section_getlist reg name key dflt sep keep_empty cfg) = Inr []"
    by (rule getlist_of_empty)
next
  assume a: "coherent reg True cfg \<and> explicit_value name key cfg = None \<and>
    reg (name, key) = None \<and> arg (Val (PStr [])) dflt = Val (PStr [])"
  then have "fst (Section_get reg name key (arg (Val (PStr [])) dflt) cfg) = Val (PStr [])"
    using get_coherent(1) [of reg cfg name key "arg (Val (PStr [])) dflt"]
    by (simp add: resolve_def)
  then show "fst (Section_getlist reg name key dflt sep keep_empty cfg) = Inr []"
    by (rule getlist_of_empty)
qed

theorem getlist_empty_value_witness:
  "fst (Section_getlist ex_registry ''x'' ''empty'' (Some (Val (PStr ''d''))) (Some '';'')
         (Some True) ex_child) = Inr [] \<and>
   fst (Section_getlist ex_registry ''x'' ''z'' None (Some []) None ex_child) = Inr []"
proof -
  have u: "coherent ex_registry True ex_child \<and> explicit_value ''x'' ''empty'' ex_child = Some []"
    by code_simp
  have v: "coherent ex_registry True ex_child \<and> explicit_value ''x'' ''z'' ex_child = None \<and>
    ex_registry (''x'', ''z'') = None \<and> arg (Val (PStr [])) None = Val (PStr [])"
    by code_simp
  show ?thesis
    using getlist_empty_value [of ex_registry "''x''" "''empty''" "Some (Val (PStr ''d''))"
        ex_child "Some '';''" "Some True"]
      getlist_empty_value [of ex_registry "''x''" "''z''" None ex_child "Some []" None] u v
    by simp
qed

text \<open>
  Claim C10. With \<open>keep_empty\<close> left out, \<open>Configuration.getlist\<close> passes \<open>False\<close> on
  and drops the empty elements, while \<open>Section.getlist\<close> takes \<open>True\<close> and keeps them:
  on the value \<open>a, b,,c\<close> of the example the two return different lists.
\<close>

theorem getlist_keep_empty_defaults:
  "(\<forall>reg name key dflt sep cfg.
      Configuration_getlist reg name key dflt sep None cfg =
        Section_getlist reg name key (Some (arg (Val (PStr [])) dflt)) (Some (arg '','' sep))
          (Some False) cfg \<and>
      Section_getlist reg name key dflt sep None cfg =
        Section_getlist reg name key dflt sep (Some True) cfg) \<and>
   fst (Configuration_getlist ex_registry ''x'' ''l'' None None None ex_child) =
     Inr [''a'', ''b'', ''c''] \<and>
   fst (Section_getlist ex_registry ''x'' ''l'' None None None ex_child) =
     Inr [''a'', ''b'', [], ''c'']"
proof -
  have 1: "Configuration_getlist reg name key dflt sep None cfg =
        Section_getlist reg name key (Some (arg (Val (PStr [])) dflt)) (Some (arg '','' sep))
          (Some False) cfg" for reg name key dflt sep cfg
    by (simp add: Configuration_getlist_def arg_def)
  have 2: "Section_getlist reg name key dflt sep None cfg =
        Section_getlist reg name key dflt sep (Some True) cfg" for reg name key dflt sep cfg
  proof -
    have k: "arg True None = arg True (Some True)"
      by (simp add: arg_def)
    show ?thesis
      unfolding Section_getlist_def k by (rule refl)
  qed
  have 3: "fst (Configuration_getlist ex_registry ''x'' ''l'' None None None ex_child) =
     Inr [''a'', ''b'', ''c'']"
    by code_simp
  have 4: "fst (Section_getlist ex_registry ''x'' ''l'' None None None ex_child) =
     Inr [''a'', ''b'', [], ''c'']"
    by code_simp
  from 1 2 3 4 show ?thesis by blast
qed

section \<open>Reparsing\<close>

lemma parse_missing_file:
  assumes "filename cfg = [] \<or> fs (filename cfg) = None"
  shows "parse_if_needed fs force cfg = (Inr False, cfg)"
  using assms by (cases cfg) (auto simp: isfile_def)

lemma parse_stale_readable:
  assumes "fn \<noteq> []" "fs fn = Some f" "force \<or> st_mtime f > lm" "content f = Parsed s"
  shows "parse_if_needed fs force (Configuration fn ps olds pars lm secs cc) =
     (Inr True,
      Configuration fn s s (map (Configuration_init fs) (inherit_files fn s)) (st_mtime f) []
        (Some []))"
  using assms by (auto simp: isfile_def getmtime_def parser_read_def)

lemma parse_stale_unreadable:
  assumes "fn \<noteq> []" "fs fn = Some f" "force \<or> st_mtime f > lm" "content f = Unreadable"
  shows "parse_if_needed fs force (Configuration fn ps olds pars lm secs cc) =
     (Inl TypeError, Configuration fn [] olds pars lm [] cc)"
  using assms by (auto simp: isfile_def getmtime_def parser_read_def prepend_def)

lemma parse_not_stale:
  assumes "fn \<noteq> []" "fs fn = Some f" "\<not> (force \<or> st_mtime f > lm)"
  shows "parse_if_needed fs force (Configuration fn ps olds pars lm secs cc) =
     (case parse_parents fs force False pars of
        (Inl e, pars1) \<Rightarrow> (Inl e, Configuration fn ps olds pars1 lm secs cc)
      | (Inr changed, pars1) \<Rightarrow>
          (Inr changed, Configuration fn ps olds pars1 lm secs (if changed then Some [] else cc)))"
  using assms by (auto simp: isfile_def getmtime_def)



text \<open>A call that returns \<open>False\<close> has changed nothing, in this object or below it.\<close>

lemma parse_false_unchanged:
  "parse_if_needed fs force cfg = (Inr False, cfg1) \<Longrightarrow> cfg1 = cfg"
  "parse_parents fs force changed ps = (Inr False, ps1) \<Longrightarrow> ps1 = ps \<and> \<not> changed"
proof (induction fs force cfg and fs force changed ps arbitrary: cfg1 and ps1
    rule: parse_if_needed_parse_parents.induct)
  case (1 fs force fn ps olds pars lm secs cc)
  show ?case
  proof (cases "fn = [] \<or> fs fn = None")
    case True
    with "1.prems" show ?thesis by (auto simp: isfile_def)
  next
    case False
    then obtain f where f: "fn \<noteq> []" "fs fn = Some f" by auto
    show ?thesis
    proof (cases "force \<or> st_mtime f > lm")
      case True
      with "1.prems" f show ?thesis
        by (auto simp: isfile_def getmtime_def prepend_def split: option.splits sum.splits)
    next
      case False
      with "1.prems" f "1.IH" [of "st_mtime f"] show ?thesis
        by (auto simp: isfile_def getmtime_def split: prod.splits sum.splits if_splits)
    qed
  qed
next
  case (2 fs force changed)
  then show ?case by simp
next
  case (3 fs force changed p ps)
  then show ?case
    by (auto split: prod.splits sum.splits)
qed



subsection \<open>Calling twice\<close>

text \<open>
  Claim C8, as stated, fails: the first call on the example's child rebuilds its parent
  as a fresh instance whose recorded time is 0, so the second call, with no file touched
  in between, parses the parent and returns true.
\<close>

theorem parse_twice_counterexample:
  "fst (parse_if_needed ex_files False (Configuration_init ex_files ''/etc/burp/child.ini'')) =
     Inr True \<and>
   ex_child =
     snd (parse_if_needed ex_files False (Configuration_init ex_files ''/etc/burp/child.ini'')) \<and>
   fst (parse_if_needed ex_files False ex_child) = Inr True"
proof -
  have 1: "fst (parse_if_needed ex_files False
      (Configuration_init ex_files ''/etc/burp/child.ini'')) = Inr True"
    by code_simp
  have 2: "fst (parse_if_needed ex_files False ex_child) = Inr True"
    by code_simp
  from 1 2 show ?thesis by (simp add: ex_child_def)
qed

text \<open>
  Claim C8, amended. A call of \<open>parse_if_needed(force=False)\<close> that returns false has
  left the whole object as it was, every cached value included, and the next call, with
  no file modified in between, returns false again. After a call that parsed this file
  anew, the next call returns false and changes nothing when the file names no parent.
\<close>

theorem parse_if_needed_idempotent:
  "(parse_if_needed fs False cfg = (Inr False, cfg1) \<longrightarrow>
      cfg1 = cfg \<and> parse_if_needed fs False cfg1 = (Inr False, cfg1)) \<and>
   (fn \<noteq> [] \<and> fs fn = Some f \<and> st_mtime f > lm \<and> content f = Parsed s \<and>
    inherit_files fn s = [] \<longrightarrow>
      parse_if_needed fs False (Configuration fn ps olds pars lm secs cc) =
        (Inr True, Configuration fn s s [] (st_mtime f) [] (Some [])) \<and>
      parse_if_needed fs False (Configuration fn s s [] (st_mtime f) [] (Some [])) =
        (Inr False, Configuration fn s s [] (st_mtime f) [] (Some [])))"
proof (intro conjI impI)
  assume a: "parse_if_needed fs False cfg = (Inr False, cfg1)"
  then show "cfg1 = cfg" by (rule parse_false_unchanged(1))
  with a show "parse_if_needed fs False cfg1 = (Inr False, cfg1)" by simp
next
  assume a: "fn \<noteq> [] \<and> fs fn = Some f \<and> st_mtime f > lm \<and> content f = Parsed s \<and>
    inherit_files fn s = []"
  then show "parse_if_needed fs False (Configuration fn ps olds pars lm secs cc) =
      (Inr True, Configuration fn s s [] (st_mtime f) [] (Some []))"
    using parse_stale_readable [of fn fs f False lm s ps olds pars secs cc] by simp
  from a show "parse_if_needed fs False (Configuration fn s s [] (st_mtime f) [] (Some [])) =
      (Inr False, Configuration fn s s [] (st_mtime f) [] (Some []))"
    using parse_not_stale [of fn fs f False "st_mtime f" s s "[]" "[]" "Some []"] by simp
qed

theorem parse_if_needed_idempotent_witness:
  "parse_if_needed ex_files False ex_loaded = (Inr False, ex_loaded) \<and>
   fst (parse_if_needed ex_files False (Configuration_init ex_files ''/etc/burp/parent.ini'')) =
     Inr True \<and>
   fst (parse_if_needed ex_files False
     (snd (parse_if_needed ex_files False
        (Configuration_init ex_files ''/etc/burp/parent.ini'')))) = Inr False"
proof -
  let ?fn = "''/etc/burp/parent.ini''"
  let ?P = "[(''x'', [(''a'', ''2''), (''empty'', ''full''), (''p'', ''q'')])]"
  let ?f = "\<lparr>st_mtime = 5, content = Parsed ?P\<rparr>"
  have "fst (parse_if_needed ex_files False ex_loaded) = Inr False"
    by code_simp
  then obtain cfg1 where r: "parse_if_needed ex_files False ex_loaded = (Inr False, cfg1)"
    by (cases "parse_if_needed ex_files False ex_loaded") simp
  from parse_if_needed_idempotent [of ex_files ex_loaded cfg1] r
  have 1: "parse_if_needed ex_files False ex_loaded = (Inr False, ex_loaded)"
    by simp
  have i: "Configuration_init ex_files ?fn = Configuration ?fn ?P [] [] 0 [] None"
    by code_simp
  have h: "?fn \<noteq> [] \<and> ex_files ?fn = Some ?f \<and> st_mtime ?f > 0 \<and> content ?f = Parsed ?P \<and>
    inherit_files ?fn ?P = []"
    by (simp add: ex_files_def inherit_files_def parser_get_def)
  from parse_if_needed_idempotent [of ex_files ex_loaded cfg1 ?fn ?f 0 ?P "?P" "[]" "[]" "[]" None] h
  have "parse_if_needed ex_files False (Configuration ?fn ?P [] [] 0 [] None) =
        (Inr True, Configuration ?fn ?P ?P [] (st_mtime ?f) [] (Some [])) \<and>
      parse_if_needed ex_files False (Configuration ?fn ?P ?P [] (st_mtime ?f) [] (Some [])) =
        (Inr False, Configuration ?fn ?P ?P [] (st_mtime ?f) [] (Some []))"
    by blast
  with i 1 show ?thesis by simp
qed

section \<open>Where the code departs from its own intent\<close>

text \<open>
  Claim C5. A file that does not exist makes \<open>parse_if_needed\<close> return false and change
  nothing (\<open>parse_missing_file\<close>). For a file that exists and cannot be opened the code
  reaches \<open>raise IOError(...)\<close>, but the message is built with \<open>%(file)s\<close> and a tuple,
  so what is raised is the \<open>TypeError\<close> of the \<open>%\<close> operator and not the read error
  (\<open>parse_stale_unreadable\<close>); here on the file \<open>locked.ini\<close>.
\<close>

theorem parse_unreadable_raises_TypeError:
  "py_format ''Error reading '%(file)s', make sure it is readable.''
     (Tuple [''/etc/burp/locked.ini'']) = Inl TypeError \<and>
   fst (parse_if_needed ex_locked False (Configuration_init ex_locked ''/etc/burp/locked.ini'')) =
     Inl TypeError \<and>
   fst (parse_if_needed ex_locked True (Configuration_init ex_locked ''/etc/burp/locked.ini'')) =
     Inl TypeError"
proof -
  have 1: "py_format ''Error reading '%(file)s', make sure it is readable.''
     (Tuple [''/etc/burp/locked.ini'']) = Inl TypeError"
    by (simp add: prepend_def)
  have i: "Configuration_init ex_locked ''/etc/burp/locked.ini'' =
      Configuration ''/etc/burp/locked.ini'' [] [] [] 0 [] None"
    by (simp add: Configuration_init_def parser_read_def ex_locked_def)
  have f: "ex_locked ''/etc/burp/locked.ini'' = Some \<lparr>st_mtime = 5, content = Unreadable\<rparr>"
    by (simp add: ex_locked_def)
  have 2: "fst (parse_if_needed ex_locked force
      (Configuration ''/etc/burp/locked.ini'' [] [] [] 0 [] None)) = Inl TypeError" for force
    using parse_stale_unreadable [of "''/etc/burp/locked.ini''" ex_locked
        "\<lparr>st_mtime = 5, content = Unreadable\<rparr>" force 0 "[]" "[]" "[]" "[]" None] f
    by simp
  from 1 2 i show ?thesis by simp
qed

text \<open>
  Claim C1. In the example the child has read \<open>p\<close> from its parent (\<open>ex_read\<close>, the value
  \<open>q\<close> cached in the child's proxy, the caches coherent); then \<open>parent.ini\<close> is rewritten
  with \<open>p = changed\<close>. The next \<open>parse_if_needed\<close> of the child returns true, because the
  parent changed, and assigns \<open>_cache\<close> of the \<open>Configuration\<close>, which nothing reads; the
  proxies of the child keep their caches, which are not coherent any more. The \<open>get\<close> that
  follows returns the old \<open>q\<close>, where a resolution over the new data gives \<open>changed\<close>.
\<close>

theorem get_after_parent_change_is_stale:
  "coherent ex_registry True ex_read \<and>
   fst (parse_if_needed ex_files_later False ex_read) = Inr True \<and>
   conf_cache ex_reparsed = Some [] \<and>
   sections ex_reparsed = sections ex_read \<and>
   \<not> coherent ex_registry True ex_reparsed \<and>
   fst (Section_get ex_registry ''x'' ''p'' (Val (PStr [])) ex_reparsed) = Val (PStr ''q'') \<and>
   resolve ex_registry ''x'' ''p'' (Val (PStr [])) ex_reparsed = Val (PStr ''changed'')"
proof -
  have 0: "coherent ex_registry True ex_read" by code_simp
  have 1: "fst (parse_if_needed ex_files_later False ex_read) = Inr True" by code_simp
  have 2: "conf_cache ex_reparsed = Some []" by code_simp
  have 3: "sections ex_reparsed = sections ex_read" by code_simp
  have 4: "fst (Section_get ex_registry ''x'' ''p'' (Val (PStr [])) ex_reparsed) = Val (PStr ''q'')"
    by code_simp
  have 5: "resolve ex_registry ''x'' ''p'' (Val (PStr [])) ex_reparsed = Val (PStr ''changed'')"
    by code_simp
  have 6: "\<not> coherent ex_registry True ex_reparsed" by code_simp
  from 0 1 2 3 4 5 6 show ?thesis by simp
qed

text \<open>
  When it is this file that changed, the proxies are dropped and the parents are new, so
  the tree is coherent after the call, whatever was cached before it.
\<close>

lemma reparse_coherent:
  assumes "fn \<noteq> []" "fs fn = Some f" "force \<or> st_mtime f > lm" "content f = Parsed s"
  shows "coherent reg wr (snd (parse_if_needed fs force (Configuration fn ps olds pars lm secs cc)))"
proof -
  have "parse_if_needed fs force (Configuration fn ps olds pars lm secs cc) =
     (Inr True,
      Configuration fn s s (map (Configuration_init fs) (inherit_files fn s)) (st_mtime f) []
        (Some []))"
    using assms by (rule parse_stale_readable)
  then show ?thesis
    by (simp add: caches_ok_def list_all_iff coherent_Configuration_init)
qed

text \<open>
  Claim C2. \<open>Configuration.remove\<close> calls \<open>remove\<close> on the \<open>Section\<close> proxy, and
  \<open>Section\<close> defines no such method: the call raises \<open>AttributeError\<close>, the parsed
  data stay as they were, and \<open>get\<close> still returns the child's own value \<open>1\<close>, not the
  parent's \<open>2\<close>.
\<close>

theorem remove_raises_AttributeError:
  "fst (Configuration_remove ''x'' ''a'' ex_child) = Inl AttributeError \<and>
   parser (snd (Configuration_remove ''x'' ''a'' ex_child)) = parser ex_child \<and>
   fst (Configuration_get ex_registry ''x'' ''a'' (Val (PStr []))
          (snd (Configuration_remove ''x'' ''a'' ex_child))) = Val (PStr ''1'') \<and>
   first_explicit ''x'' ''a'' (parents ex_child) = Some ''2''"
proof -
  have 1: "fst (Configuration_remove ''x'' ''a'' ex_child) = Inl AttributeError" by code_simp
  have 2: "parser (snd (Configuration_remove ''x'' ''a'' ex_child)) = parser ex_child"
    by code_simp
  have 3: "fst (Configuration_get ex_registry ''x'' ''a'' (Val (PStr []))
          (snd (Configuration_remove ''x'' ''a'' ex_child))) = Val (PStr ''1'')"
    by code_simp
  have 4: "first_explicit ''x'' ''a'' (parents ex_child) = Some ''2''" by code_simp
  from 1 2 3 4 show ?thesis by simp
qed

lemma remove_always_raises:
  "fst (Configuration_remove section key cfg) = Inl AttributeError \<and>
   parser (snd (Configuration_remove section key cfg)) = parser cfg"
  by (cases cfg) (simp add: Configuration_remove_def Section_getattr_def Section_attributes_def)

section \<open>The monitor\<close>

lemma map_of_dict_set: "map_of (dict_set k v d) = (map_of d)(k \<mapsto> v)"
  by (induction d) auto

lemma recorded_dict_set:
  "recorded (dict_set k v d) k' = (if k' = k then v else recorded d k')"
  by (simp add: recorded_def map_of_dict_set)

lemma has_changed_recorded:
  assumes "has_changed w fn mt = (r, mt1)" "B \<noteq> fn"
  shows "recorded mt1 B = recorded mt B"
  using assms
  by (auto simp: has_changed_def recorded_dict_set split: sum.splits if_splits)

lemma monitor_recorded:
  assumes "monitor w fn plugins mt = (r, plugins1, mt1, ev)" "B \<noteq> fn"
  shows "recorded mt1 B = recorded mt B"
proof -
  obtain c mt2 where h: "has_changed w fn mt = (c, mt2)"
    by (cases "has_changed w fn mt")
  with assms(1) have "mt1 = mt2"
    by (auto simp: monitor_def split: sum.splits if_splits prod.splits)
  with has_changed_recorded [OF h assms(2)] show ?thesis by simp
qed

text \<open>The loop over the files records a time only for the files it goes through.\<close>

lemma monitor_all_recorded:
  "monitor_all w l mt = (r, l1, mt1, ev) \<Longrightarrow> B \<notin> fst ` set l \<Longrightarrow>
     recorded mt1 B = recorded mt B"
proof (induction l arbitrary: mt r l1 mt1 ev)
  case Nil
  then show ?case by simp
next
  case (Cons x l)
  obtain fn plugins where x: "x = (fn, plugins)" by (cases x)
  obtain r2 plugins1 mt2 ev2 where m: "monitor w fn plugins mt = (r2, plugins1, mt2, ev2)"
    by (cases "monitor w fn plugins mt") auto
  from Cons.prems(2) x have ne: "B \<noteq> fn" and nin: "B \<notin> fst ` set l" by auto
  have s: "recorded mt2 B = recorded mt B"
    using monitor_recorded [OF m ne] .
  show ?case
  proof (cases r2)
    case (Some e)
    with Cons.prems(1) x m have "mt1 = mt2" by simp
    with s show ?thesis by simp
  next
    case None
    obtain r3 l3 mt3 ev3 where n: "monitor_all w l mt2 = (r3, l3, mt3, ev3)"
      by (cases "monitor_all w l mt2") auto
    with Cons.prems(1) x m None have "mt1 = mt3" by simp
    with Cons.IH [OF n nin] s show ?thesis by simp
  qed
qed

text \<open>The loop over a list that continues after a first part that raised nothing.\<close>

lemma monitor_all_append:
  "monitor_all w pre mt = (None, pre1, mt1, ev1) \<Longrightarrow>
     monitor_all w (pre @ rest) mt =
       (case monitor_all w rest mt1 of
          (r, rest1, mt2, ev2) \<Rightarrow> (r, pre1 @ rest1, mt2, ev1 @ ev2))"
proof (induction pre arbitrary: mt pre1 mt1 ev1)
  case Nil
  then show ?case by (simp split: prod.splits)
next
  case (Cons x pre)
  obtain fn plugins where x: "x = (fn, plugins)" by (cases x)
  obtain r2 plugins1 mt2 ev2 where m: "monitor w fn plugins mt = (r2, plugins1, mt2, ev2)"
    by (cases "monitor w fn plugins mt") auto
  obtain r3 l3 mt3 ev3 where n: "monitor_all w pre mt2 = (r3, l3, mt3, ev3)"
    by (cases "monitor_all w pre mt2") auto
  from Cons.prems x m n have r2: "r2 = None" and r3: "r3 = None"
    and e: "pre1 = (fn, plugins1) # l3" "mt1 = mt3" "ev1 = ev2 @ ev3"
    by (auto split: option.splits)
  from Cons.IH [of mt2 l3 mt3 ev3] n r3
  have "monitor_all w (pre @ rest) mt2 =
       (case monitor_all w rest mt3 of
          (r, rest1, mt4, ev4) \<Rightarrow> (r, l3 @ rest1, mt4, ev3 @ ev4))"
    by simp
  with x m r2 e show ?case by (simp split: prod.splits)
qed

lemma monitor_raises:
  assumes "getmtime (files w) A = Inr tA" "tA > recorded mt A"
    "reload_all w pa = (Some e, pa1, ev)"
  shows "monitor w A pa mt = (Some e, pa1, dict_set A tA mt, Info_modified A # ev)"
  using assms by (simp add: monitor_def has_changed_def)

lemma tick_raises:
  assumes mon: "monitoring st = pre @ (A, pa) # post"
    and pre: "monitor_all w pre (mtimes st) = (None, pre1, mt1, ev1)"
    and tA: "getmtime (files w) A = Inr tA" "tA > recorded mt1 A"
    and raises: "reload_all w pa = (Some e, pa1, ev2)"
  shows "tick w st =
     \<lparr>mtimes = dict_set A tA mt1, monitoring = pre1 @ (A, pa1) # post,
      log = log st @ ev1 @ Info_modified A # ev2 @ [Exception_reloading A e]\<rparr>"
proof -
  have "monitor_all w ((A, pa) # post) mt1 =
      (Some (A, e), (A, pa1) # post, dict_set A tA mt1, Info_modified A # ev2)"
    using monitor_raises [OF tA raises] by simp
  with monitor_all_append [OF pre, of "(A, pa) # post"]
  have "monitor_all w (monitoring st) (mtimes st) =
      (Some (A, e), pre1 @ (A, pa1) # post, dict_set A tA mt1, ev1 @ Info_modified A # ev2)"
    by (simp add: mon)
  then show ?thesis by (simp add: tick_def)
qed

lemma reload_no_info: "reload w p = (r, p1, ev) \<Longrightarrow> Info_modified B \<notin> set ev"
  by (auto simp: reload_def split: referent.splits option.splits prod.splits sum.splits)

lemma reload_all_no_info:
  "reload_all w ps = (r, ps1, ev) \<Longrightarrow> Info_modified B \<notin> set ev"
proof (induction ps arbitrary: r ps1 ev)
  case Nil
  then show ?case by simp
next
  case (Cons p ps)
  obtain r2 p2 ev2 where a: "reload w p = (r2, p2, ev2)"
    by (cases "reload w p") auto
  obtain r3 ps3 ev3 where b: "reload_all w ps = (r3, ps3, ev3)"
    by (cases "reload_all w ps") auto
  from Cons.prems a b have "set ev \<subseteq> insert (Debug_reloading (plugin_class p)) (set ev2 \<union> set ev3)"
    by (auto split: option.splits)
  with reload_no_info [OF a, of B] Cons.IH [OF b] show ?case by auto
qed

lemma monitor_info:
  assumes "monitor w fn plugins mt = (r, plugins1, mt1, ev)" "Info_modified B \<in> set ev"
  shows "B = fn"
proof -
  obtain r3 ps3 ev3 where b: "reload_all w plugins = (r3, ps3, ev3)"
    by (cases "reload_all w plugins") auto
  with assms reload_all_no_info [OF b, of B] show ?thesis
    by (auto simp: monitor_def split: prod.splits sum.splits if_splits)
qed

text \<open>The loop over the files logs a modification only for the files it goes through.\<close>

lemma monitor_all_info:
  "monitor_all w l mt = (r, l1, mt1, ev) \<Longrightarrow> Info_modified B \<in> set ev \<Longrightarrow> B \<in> fst ` set l"
proof (induction l arbitrary: mt r l1 mt1 ev)
  case Nil
  then show ?case by simp
next
  case (Cons x l)
  obtain fn plugins where x: "x = (fn, plugins)" by (cases x)
  obtain r2 plugins1 mt2 ev2 where m: "monitor w fn plugins mt = (r2, plugins1, mt2, ev2)"
    by (cases "monitor w fn plugins mt") auto
  obtain r3 l3 mt3 ev3 where n: "monitor_all w l mt2 = (r3, l3, mt3, ev3)"
    by (cases "monitor_all w l mt2") auto
  from Cons.prems(1) x m n have "set ev \<subseteq> set ev2 \<union> set ev3"
    by (auto split: option.splits)
  with Cons.prems(2) have "Info_modified B \<in> set ev2 \<or> Info_modified B \<in> set ev3" by auto
  then show ?case
  proof
    assume "Info_modified B \<in> set ev2"
    from monitor_info [OF m this] x show ?thesis by simp
  next
    assume "Info_modified B \<in> set ev3"
    from Cons.IH [OF n this] show ?thesis by simp
  qed
qed

subsection \<open>An exception in one reload\<close>

text \<open>
  Claim C7, as stated, fails. In the example both files changed before the turn (written
  at 5, recorded at 1); reloading the dependent of \<open>locked.ini\<close> raises, the \<open>except\<close>
  around the whole loop logs it, and the turn is over: \<open>handler.py\<close> has not been looked
  at in that turn, nothing is logged for it and its recorded time is still 1.
\<close>

theorem monitor_same_tick_counterexample:
  "recorded (mtimes ex_monitor) ''/etc/burp/locked.ini'' = 1 \<and>
   recorded (mtimes ex_monitor) ''/plugins/handler.py'' = 1 \<and>
   getmtime (files ex_world) ''/etc/burp/locked.ini'' = Inr 5 \<and>
   getmtime (files ex_world) ''/plugins/handler.py'' = Inr 5 \<and>
   log (tick ex_world ex_monitor) =
     [Info_modified ''/etc/burp/locked.ini'', Debug_reloading ''Configuration'',
      Debug_configuration ''/etc/burp/locked.ini'',
      Exception_reloading ''/etc/burp/locked.ini'' TypeError] \<and>
   recorded (mtimes (tick ex_world ex_monitor)) ''/plugins/handler.py'' = 1 \<and>
   monitoring (tick ex_world ex_monitor) ! 1 = monitoring ex_monitor ! 1"
proof -
  have 1: "recorded (mtimes ex_monitor) ''/etc/burp/locked.ini'' = 1"
    "recorded (mtimes ex_monitor) ''/plugins/handler.py'' = 1"
    "getmtime (files ex_world) ''/etc/burp/locked.ini'' = Inr 5"
    "getmtime (files ex_world) ''/plugins/handler.py'' = Inr 5"
    by code_simp+
  have 2: "log (tick ex_world ex_monitor) =
     [Info_modified ''/etc/burp/locked.ini'', Debug_reloading ''Configuration'',
      Debug_configuration ''/etc/burp/locked.ini'',
      Exception_reloading ''/etc/burp/locked.ini'' TypeError]"
    by code_simp
  have 3: "recorded (mtimes (tick ex_world ex_monitor)) ''/plugins/handler.py'' = 1"
    by code_simp
  have 4: "monitoring (tick ex_world ex_monitor) ! 1 = monitoring ex_monitor ! 1"
    by code_simp
  from 1 2 3 4 show ?thesis by simp
qed

text \<open>
  Claim C7, amended. When the reload action for a dependent of a changed file A raises,
  the exception is caught at the end of the turn and logged with A's path, and the loop
  goes on with the next turn. The files iterated before A have been processed in that
  turn. The files iterated after A, such as B, are not looked at in that turn: nothing is
  logged for them, their dependents are untouched and their recorded times are as before,
  so B still counts as changed when a later turn reaches it. A's new time has been
  recorded before the reload, so a later modification of A is detected as well.
\<close>

theorem tick_survives_reload_exception:
  assumes mon: "monitoring st = pre @ (A, pa) # post"
    and dist: "distinct (map fst (monitoring st))"
    and pre: "monitor_all w pre (mtimes st) = (None, pre1, mt1, ev1)"
    and tA: "getmtime (files w) A = Inr tA" "tA > recorded (mtimes st) A"
    and raises: "reload_all w pa = (Some e, pa1, ev2)"
  shows
    "tick w st =
       \<lparr>mtimes = dict_set A tA mt1, monitoring = pre1 @ (A, pa1) # post,
        log = log st @ ev1 @ Info_modified A # ev2 @ [Exception_reloading A e]\<rparr> \<and>
     run_ticks (w # ws) st = run_ticks ws (tick w st) \<and>
     (\<forall>w2 t2. getmtime (files w2) A = Inr t2 \<and> t2 > tA \<longrightarrow>
        fst (has_changed w2 A (mtimes (tick w st))) = Inr True) \<and>
     (\<forall>B plugins. (B, plugins) \<in> set post \<longrightarrow>
        (B, plugins) \<in> set (monitoring (tick w st)) \<and>
        Info_modified B \<notin> set (ev1 @ Info_modified A # ev2 @ [Exception_reloading A e]) \<and>
        recorded (mtimes (tick w st)) B = recorded (mtimes st) B \<and>
        (\<forall>w2 t2. getmtime (files w2) B = Inr t2 \<and> t2 > recorded (mtimes st) B \<longrightarrow>
           fst (has_changed w2 B (mtimes (tick w st))) = Inr True))"
proof -
  from dist mon have Apre: "A \<notin> fst ` set pre" by auto
  have rA: "recorded mt1 A = recorded (mtimes st) A"
    using monitor_all_recorded [OF pre Apre] .
  have t: "tick w st =
       \<lparr>mtimes = dict_set A tA mt1, monitoring = pre1 @ (A, pa1) # post,
        log = log st @ ev1 @ Info_modified A # ev2 @ [Exception_reloading A e]\<rparr>"
    using tick_raises [OF mon pre tA(1) _ raises] tA(2) rA by simp
  have later_A: "\<forall>w2 t2. getmtime (files w2) A = Inr t2 \<and> t2 > tA \<longrightarrow>
      fst (has_changed w2 A (mtimes (tick w st))) = Inr True"
    by (simp add: t has_changed_def recorded_dict_set)
  have rt: "run_ticks (w # ws) st = run_ticks ws (tick w st)"
    by simp
  have after: "(B, plugins) \<in> set (monitoring (tick w st)) \<and>
        Info_modified B \<notin> set (ev1 @ Info_modified A # ev2 @ [Exception_reloading A e]) \<and>
        recorded (mtimes (tick w st)) B = recorded (mtimes st) B \<and>
        (\<forall>w2 t2. getmtime (files w2) B = Inr t2 \<and> t2 > recorded (mtimes st) B \<longrightarrow>
           fst (has_changed w2 B (mtimes (tick w st))) = Inr True)"
    if B: "(B, plugins) \<in> set post" for B plugins
  proof -
    from B have Bpost: "B \<in> fst ` set post" by force
    with dist mon have BA: "B \<noteq> A" and Bpre: "B \<notin> fst ` set pre" by auto
    have rB: "recorded (mtimes (tick w st)) B = recorded (mtimes st) B"
      using monitor_all_recorded [OF pre Bpre] BA by (simp add: t recorded_dict_set)
    have "Info_modified B \<notin> set ev1"
      using monitor_all_info [OF pre] Bpre by blast
    moreover have "Info_modified B \<notin> set ev2"
      using reload_all_no_info [OF raises] .
    ultimately have nolog:
      "Info_modified B \<notin> set (ev1 @ Info_modified A # ev2 @ [Exception_reloading A e])"
      using BA by simp
    have later_B: "\<forall>w2 t2. getmtime (files w2) B = Inr t2 \<and> t2 > recorded (mtimes st) B \<longrightarrow>
        fst (has_changed w2 B (mtimes (tick w st))) = Inr True"
      using rB by (simp add: has_changed_def)
    have kept: "(B, plugins) \<in> set (monitoring (tick w st))"
      using B by (simp add: t)
    from kept nolog rB later_B show ?thesis by blast
  qed
  from t rt later_A after show ?thesis by blast
qed

theorem tick_survives_reload_exception_witness:
  "log (tick ex_world ex_monitor) =
     [Info_modified ''/etc/burp/locked.ini'', Debug_reloading ''Configuration'',
      Debug_configuration ''/etc/burp/locked.ini'',
      Exception_reloading ''/etc/burp/locked.ini'' TypeError] \<and>
   recorded (mtimes (tick ex_world ex_monitor)) ''/etc/burp/locked.ini'' = 5 \<and>
   recorded (mtimes (tick ex_world ex_monitor)) ''/plugins/handler.py'' = 1 \<and>
   fst (has_changed ex_world ''/plugins/handler.py'' (mtimes (tick ex_world ex_monitor))) =
     Inr True \<and>
   Info_modified ''/plugins/handler.py'' \<in> set (log (tick ex_world (tick ex_world ex_monitor)))"
proof -
  let ?A = "''/etc/burp/locked.ini''"
  let ?B = "''/plugins/handler.py''"
  let ?c = "Configuration ?A [] [] [] 0 [] None"
  let ?pa = "[\<lparr>plugin_module = ''gds.burp.config'', plugin_class = ''Configuration'',
            plugin_instance = ConfigurationObject ?c\<rparr>]"
  let ?pb = "[\<lparr>plugin_module = ''handler'', plugin_class = ''ConsoleMenu'',
            plugin_instance = MenuItemHandler\<rparr>]"
  let ?pa1 = "[\<lparr>plugin_module = ''gds.burp.config'', plugin_class = ''Configuration'',
            plugin_instance = ConfigurationObject ?c\<rparr>]"
  let ?ev2 = "[Debug_reloading ''Configuration'', Debug_configuration ?A]"
  have mon: "monitoring ex_monitor = [] @ (?A, ?pa) # [(?B, ?pb)]"
    by (simp add: ex_monitor_def)
  have dist: "distinct (map fst (monitoring ex_monitor))"
    by (simp add: ex_monitor_def)
  have pre: "monitor_all ex_world [] (mtimes ex_monitor) = (None, [], mtimes ex_monitor, [])"
    by simp
  have tA: "getmtime (files ex_world) ?A = Inr 5" "5 > recorded (mtimes ex_monitor) ?A"
    by (simp_all add: ex_world_def ex_monitor_def getmtime_def recorded_def)
  have raises: "reload_all ex_world ?pa = (Some TypeError, ?pa1, ?ev2)"
    by code_simp
  note T = tick_survives_reload_exception [OF mon dist pre tA raises, of "[]"]
  have B: "getmtime (files ex_world) ?B = Inr 5 \<and> 5 > recorded (mtimes ex_monitor) ?B"
    by (simp add: ex_world_def ex_monitor_def getmtime_def recorded_def)
  from T have 1: "log (tick ex_world ex_monitor) =
      [Info_modified ?A, Debug_reloading ''Configuration'', Debug_configuration ?A,
       Exception_reloading ?A TypeError]"
    by (simp add: ex_monitor_def)
  from T have 2: "recorded (mtimes (tick ex_world ex_monitor)) ?A = 5"
    by (simp add: recorded_dict_set)
  have inpost: "(?B, ?pb) \<in> set [(?B, ?pb)]"
    by simp
  from T inpost have TB:
    "recorded (mtimes (tick ex_world ex_monitor)) ?B = recorded (mtimes ex_monitor) ?B \<and>
     (\<forall>w2 t2. getmtime (files w2) ?B = Inr t2 \<and> t2 > recorded (mtimes ex_monitor) ?B \<longrightarrow>
        fst (has_changed w2 ?B (mtimes (tick ex_world ex_monitor))) = Inr True)"
    by blast
  then have 3: "recorded (mtimes (tick ex_world ex_monitor)) ?B = 1"
    by (simp add: ex_monitor_def recorded_def)
  from TB B have 4: "fst (has_changed ex_world ?B (mtimes (tick ex_world ex_monitor))) = Inr True"
    by blast
  have 5: "Info_modified ?B \<in> set (log (tick ex_world (tick ex_world ex_monitor)))"
    by code_simp
  from 1 2 3 4 5 show ?thesis by simp
qed

end
